theory Spec2Isabelle
  imports Complex_Main "HOL-Library.Multiset" "HOL-Library.Char_ord" "HOL-Library.List_Lexorder"
    "HOL-Library.Log_Nat"
begin

section \<open>Python values used by the library browser\<close>

text \<open>
  The embedding follows \<^verbatim>\<open>src/backend/library_browser.py\<close>. A Python \<^verbatim>\<open>str\<close>
  is modelled by the \<^typ>\<open>string\<close> of its UTF-8 bytes: the separator and the dot are
  single bytes that occur in no other character, a substring of code points is a
  substring of bytes, and the order of the byte strings is the order of the code points.
  Python \<^verbatim>\<open>int\<close> is \<^typ>\<open>int\<close>, a modification time is a \<^typ>\<open>rat\<close> (every
  finite double is a rational). An exception that leaves a function is the \<open>Inl\<close>
  branch of a sum.
\<close>

datatype py_exception = ZeroDivisionError | ValueError string | OSError string

fun str_exc :: "py_exception \<Rightarrow> string" where
  "str_exc ZeroDivisionError = ''division by zero''"
| "str_exc (ValueError m) = m"
| "str_exc (OSError m) = m"

text \<open>\<^verbatim>\<open>str(n)\<close> for the non-negative counts the code formats.\<close>

definition digit_char :: "nat \<Rightarrow> char" where
  "digit_char d = ''0123456789'' ! d"

fun str_nat :: "nat \<Rightarrow> string" where
  "str_nat n = (if n < 10 then [digit_char n] else str_nat (n div 10) @ [digit_char (n mod 10)])"

declare str_nat.simps [simp del]

text \<open>\<^verbatim>\<open>a in b\<close> on strings: \<open>a\<close> occurs as a contiguous substring of \<open>b\<close>.\<close>

fun py_in :: "string \<Rightarrow> string \<Rightarrow> bool" where
  "py_in a [] = (a = [])"
| "py_in a (c # cs) = (take (length a) (c # cs) = a \<or> py_in a cs)"

text \<open>
  \<^verbatim>\<open>xs[start:stop]\<close>: a negative index counts from the end, and both ends are
  clipped to the list.
\<close>

definition slice_index :: "int \<Rightarrow> int \<Rightarrow> int" where
  "slice_index n i = (if i < 0 then max 0 (i + n) else min i n)"

definition py_slice :: "'a list \<Rightarrow> int \<Rightarrow> int \<Rightarrow> 'a list" where
  "py_slice xs start stop =
     (let n = int (length xs); s = slice_index n start; e = slice_index n stop
      in if s < e then take (nat (e - s)) (drop (nat s) xs) else [])"

subsection \<open>\<^verbatim>\<open>math.ceil(a / b)\<close>\<close>

text \<open>
  The quotient of two integers is the double nearest to the exact quotient, ties going
  to the even mantissa. For positive \<open>a\<close> and \<open>b\<close> and the exponent \<open>e\<close> with
  \<open>2^e \<le> a / b < 2^(e + 1)\<close>, the doubles around the quotient are the multiples of
  \<open>2^u\<close>, where \<open>u = e - 52\<close>, and \<open>u = - 1074\<close> for the subnormal numbers below
  \<open>2^- 1022\<close>.
\<close>

text \<open>\<open>n / d\<close> rounded to the nearest integer, a tie to the even one.\<close>

definition round_half_even :: "int \<Rightarrow> int \<Rightarrow> int" where
  "round_half_even n d =
     (let f = n div d; r = n mod d
      in if 2 * r < d then f else if d < 2 * r then f + 1 else if even f then f else f + 1)"

text \<open>\<open>b * 2^e \<le> a\<close>, for an exponent of either sign.\<close>

definition scaled_le :: "int \<Rightarrow> int \<Rightarrow> int \<Rightarrow> bool" where
  "scaled_le b e a = (if 0 \<le> e then b * 2 ^ nat e \<le> a else b \<le> a * 2 ^ nat (- e))"

text \<open>
  The exponent of \<open>a / b\<close>: the bit lengths of \<open>a\<close> and \<open>b\<close> leave two
  candidates.
\<close>

definition float_exponent :: "int \<Rightarrow> int \<Rightarrow> int" where
  "float_exponent a b = (let d = bitlen a - bitlen b in if scaled_le b d a then d else d - 1)"

definition round_double :: "int \<Rightarrow> int \<Rightarrow> real" where
  "round_double a b =
     (let e = float_exponent a b; u = max e (- 1022) - 52
      in if 0 \<le> u then of_int (round_half_even a (b * 2 ^ nat u) * 2 ^ nat u)
         else of_int (round_half_even (a * 2 ^ nat (- u)) b) / of_int (2 ^ nat (- u)))"

text \<open>
  True division by zero raises. \<^verbatim>\<open>OverflowError\<close> needs a quotient of \<open>2^1024\<close> or
  more; the dividend here is the length of a list, which is below \<open>2^63\<close>, so that
  exception cannot occur and the upper end of the exponent range is left out.
\<close>

definition ceil_truediv :: "int \<Rightarrow> int \<Rightarrow> py_exception + int" where
  "ceil_truediv a b =
     (if b = 0 then Inl ZeroDivisionError
      else Inr \<lceil>of_int (sgn a * sgn b) * round_double \<bar>a\<bar> \<bar>b\<bar>\<rceil>)"

text \<open>
  \<^verbatim>\<open>list.sort(key=..., reverse=...)\<close>: a stable sort; with \<^verbatim>\<open>reverse=True\<close>
  CPython reverses the list, sorts it stably and reverses the result, so equal keys
  keep their original order in both directions.
\<close>

definition py_sort :: "('a \<Rightarrow> 'k::linorder) \<Rightarrow> bool \<Rightarrow> 'a list \<Rightarrow> 'a list" where
  "py_sort key reverse xs = (if reverse then rev (sort_key key (rev xs)) else sort_key key xs)"

section \<open>\<^verbatim>\<open>os.path\<close> on POSIX\<close>

text \<open>\<^verbatim>\<open>p.rfind(c)\<close>: the last index of \<open>c\<close>, or \<open>-1\<close>.\<close>

fun rfind_from :: "char \<Rightarrow> string \<Rightarrow> int \<Rightarrow> int \<Rightarrow> int" where
  "rfind_from c [] i found = found"
| "rfind_from c (x # xs) i found = rfind_from c xs (i + 1) (if x = c then i else found)"

definition rfind :: "char \<Rightarrow> string \<Rightarrow> int" where
  "rfind c p = rfind_from c p 0 (- 1)"

text \<open>
  \<^verbatim>\<open>os.path.splitext\<close>: the extension starts at the last dot of the last path
  component, unless only dots precede it there.
\<close>

definition splitext :: "string \<Rightarrow> string \<times> string" where
  "splitext p =
     (let sepIndex = rfind CHR ''/'' p; dotIndex = rfind CHR ''.'' p
      in if dotIndex > sepIndex
            \<and> list_ex (\<lambda>c. c \<noteq> CHR ''.'') (py_slice p (sepIndex + 1) dotIndex)
         then (take (nat dotIndex) p, drop (nat dotIndex) p)
         else (p, []))"

definition basename :: "string \<Rightarrow> string" where
  "basename p = drop (nat (rfind CHR ''/'' p + 1)) p"

definition rstrip :: "char \<Rightarrow> string \<Rightarrow> string" where
  "rstrip c s = rev (dropWhile (\<lambda>x. x = c) (rev s))"

definition dirname :: "string \<Rightarrow> string" where
  "dirname p =
     (let head = take (nat (rfind CHR ''/'' p + 1)) p
      in if head \<noteq> [] \<and> head \<noteq> replicate (length head) CHR ''/''
         then rstrip CHR ''/'' head else head)"

definition join :: "string \<Rightarrow> string \<Rightarrow> string" where
  "join a b =
     (if b \<noteq> [] \<and> hd b = CHR ''/'' then b
      else if a = [] \<or> last a = CHR ''/'' then a @ b
      else a @ ''/'' @ b)"

section \<open>The operating system\<close>

text \<open>
  The system calls and the Unicode tables are parameters: every theorem below holds
  for each behaviour of \<^verbatim>\<open>os.stat\<close>, \<^verbatim>\<open>os.rename\<close>, \<^verbatim>\<open>os.walk\<close>,
  \<^verbatim>\<open>os.path.relpath\<close> and \<^verbatim>\<open>str.lower\<close>. The state \<open>'fs\<close> is the filesystem
  with the working directory of the process; a call that fails leaves it as it was. The
  engine is single-threaded (nothing else changes the filesystem between two calls).
  \<^verbatim>\<open>os.path.relpath\<close> reads the working directory and can raise
  (\<^verbatim>\<open>ValueError\<close> for an empty path or across Windows drives, \<^verbatim>\<open>OSError\<close> when the
  working directory is gone).
\<close>

record stat_result =
  st_size :: int
  st_mtime :: rat

record 'fs platform =
  os_stat :: "'fs \<Rightarrow> string \<Rightarrow> py_exception + stat_result"
  os_rename :: "'fs \<Rightarrow> string \<Rightarrow> string \<Rightarrow> py_exception + 'fs"
  os_walk :: "'fs \<Rightarrow> string \<Rightarrow> (string \<times> string list \<times> string list) list"
  os_relpath :: "'fs \<Rightarrow> string \<Rightarrow> string \<Rightarrow> py_exception + string"
  str_lower :: "string \<Rightarrow> string"

text \<open>\<^verbatim>\<open>os.stat('')\<close> fails on every platform.\<close>

definition stat :: "'fs platform \<Rightarrow> 'fs \<Rightarrow> string \<Rightarrow> py_exception + stat_result" where
  "stat ops fs p =
     (if p = [] then Inl (OSError ''No such file or directory'') else os_stat ops fs p)"

text \<open>\<^verbatim>\<open>os.path.exists\<close>: whether \<^verbatim>\<open>os.stat\<close> succeeds.\<close>

definition exists :: "'fs platform \<Rightarrow> 'fs \<Rightarrow> string \<Rightarrow> bool" where
  "exists ops fs p = (case stat ops fs p of Inl e \<Rightarrow> False | Inr st \<Rightarrow> True)"

definition getsize :: "'fs platform \<Rightarrow> 'fs \<Rightarrow> string \<Rightarrow> py_exception + int" where
  "getsize ops fs p = (case stat ops fs p of Inl e \<Rightarrow> Inl e | Inr st \<Rightarrow> Inr (st_size st))"

definition getmtime :: "'fs platform \<Rightarrow> 'fs \<Rightarrow> string \<Rightarrow> py_exception + rat" where
  "getmtime ops fs p = (case stat ops fs p of Inl e \<Rightarrow> Inl e | Inr st \<Rightarrow> Inr (st_mtime st))"

section \<open>The library browser\<close>

text \<open>
  An object of the class holds the library path. The three extension sets are fixed by
  the constructor. Python does not fix the order in which a set of strings is iterated,
  so the order in which \<^verbatim>\<open>find_related_subtitle\<close> walks
  \<^verbatim>\<open>self.subtitle_extensions\<close> is a field of its own.
\<close>

record library_browser =
  library_path :: string
  subtitle_iteration :: "string list"

definition video_extensions :: "string set" where
  "video_extensions =
     {''.mp4'', ''.mkv'', ''.avi'', ''.mov'', ''.wmv'', ''.flv'', ''.webm'', ''.m4v'',
      ''.mpg'', ''.mpeg''}"

definition subtitle_extensions :: "string set" where
  "subtitle_extensions = {''.srt'', ''.sub'', ''.vtt'', ''.ass'', ''.ssa''}"

definition supported_extensions :: "string set" where
  "supported_extensions =
     video_extensions \<union> subtitle_extensions \<union>
     {''.mp3'', ''.flac'', ''.wav'', ''.aac'', ''.m4a'', ''.pdf'', ''.epub'', ''.mobi''}"

record file_record =
  filename :: string
  full_path :: string
  relative_path :: string
  directory :: string
  extension :: string
  fsize :: int
  modified :: rat
  is_video :: bool
  is_subtitle :: bool

subsection \<open>\<^verbatim>\<open>_get_all_files\<close>\<close>

text \<open>
  The body of the inner loop for one file name: \<open>Inr None\<close> when the extension is not
  supported, \<open>Inl\<close> when a call raises.
\<close>

definition scan_file ::
  "'fs platform \<Rightarrow> 'fs \<Rightarrow> library_browser \<Rightarrow> string \<Rightarrow> string \<Rightarrow> py_exception + file_record option"
where
  "scan_file ops fs self walk_root name =
     (let file_path = join walk_root name;
          file_ext = str_lower ops (snd (splitext name))
      in if file_ext \<in> supported_extensions then
           (case os_relpath ops fs file_path (library_path self) of
              Inl e \<Rightarrow> Inl e
            | Inr rel \<Rightarrow>
                (case getsize ops fs file_path of
                   Inl e \<Rightarrow> Inl e
                 | Inr file_size \<Rightarrow>
                     (case getmtime ops fs file_path of
                        Inl e \<Rightarrow> Inl e
                      | Inr modified_time \<Rightarrow>
                          Inr (Some \<lparr>filename = name, full_path = file_path,
                                     relative_path = rel, directory = dirname rel,
                                     extension = file_ext, fsize = file_size,
                                     modified = modified_time,
                                     is_video = (file_ext \<in> video_extensions),
                                     is_subtitle = (file_ext \<in> subtitle_extensions)\<rparr>))))
         else Inr None)"

text \<open>
  The two nested loops. The list collected so far is returned together with the
  exception that stopped the walk, if one did.
\<close>

fun scan_filenames ::
  "'fs platform \<Rightarrow> 'fs \<Rightarrow> library_browser \<Rightarrow> string \<Rightarrow> string list \<Rightarrow> file_record list
     \<Rightarrow> file_record list \<times> py_exception option"
where
  "scan_filenames ops fs self walk_root [] files = (files, None)"
| "scan_filenames ops fs self walk_root (name # names) files =
     (case scan_file ops fs self walk_root name of
        Inl e \<Rightarrow> (files, Some e)
      | Inr None \<Rightarrow> scan_filenames ops fs self walk_root names files
      | Inr (Some r) \<Rightarrow> scan_filenames ops fs self walk_root names (files @ [r]))"

fun scan_walk ::
  "'fs platform \<Rightarrow> 'fs \<Rightarrow> library_browser \<Rightarrow> (string \<times> string list \<times> string list) list
     \<Rightarrow> file_record list \<Rightarrow> file_record list \<times> py_exception option"
where
  "scan_walk ops fs self [] files = (files, None)"
| "scan_walk ops fs self ((walk_root, dirs, filenames) # rest) files =
     (case scan_filenames ops fs self walk_root filenames files of
        (files', Some e) \<Rightarrow> (files', Some e)
      | (files', None) \<Rightarrow> scan_walk ops fs self rest files')"

text \<open>The \<^verbatim>\<open>except Exception\<close> clause logs the exception and falls through to the return.\<close>

definition get_all_files :: "'fs platform \<Rightarrow> 'fs \<Rightarrow> library_browser \<Rightarrow> file_record list" where
  "get_all_files ops fs self =
     (if \<not> exists ops fs (library_path self) then []
      else fst (scan_walk ops fs self (os_walk ops fs (library_path self)) []))"

subsection \<open>\<^verbatim>\<open>get_files_paginated\<close>\<close>

record pagination =
  current_page :: int
  per_page :: int
  total_files :: int
  total_pages :: int
  has_previous :: bool
  has_next :: bool

record stats =
  stats_total_files :: int
  video_files :: int
  subtitle_files :: int
  total_size :: int

record page_result =
  files :: "file_record list"
  pagination :: pagination
  stats :: stats

text \<open>The search filter: \<^verbatim>\<open>if search:\<close> is false for \<^verbatim>\<open>None\<close> and for the empty string.\<close>

definition filter_search ::
  "'fs platform \<Rightarrow> string option \<Rightarrow> file_record list \<Rightarrow> file_record list"
where
  "filter_search ops search all_files =
     (case search of
        None \<Rightarrow> all_files
      | Some s \<Rightarrow>
          if s = [] then all_files
          else (let search_lower = str_lower ops s
                in filter (\<lambda>f. py_in search_lower (str_lower ops (filename f))
                              \<or> py_in search_lower (str_lower ops (relative_path f)))
                     all_files))"

definition sort_files ::
  "'fs platform \<Rightarrow> string \<Rightarrow> string \<Rightarrow> file_record list \<Rightarrow> file_record list"
where
  "sort_files ops sort_by sort_order all_files =
     (let reverse = (sort_order = ''desc'')
      in if sort_by = ''filename''
         then py_sort (\<lambda>x. str_lower ops (filename x)) reverse all_files
         else if sort_by = ''size'' then py_sort fsize reverse all_files
         else py_sort modified reverse all_files)"

text \<open>The list the pagination works on: scanned, filtered, then sorted.\<close>

definition listing ::
  "'fs platform \<Rightarrow> 'fs \<Rightarrow> library_browser \<Rightarrow> string option \<Rightarrow> string \<Rightarrow> string \<Rightarrow> file_record list"
where
  "listing ops fs self search sort_by sort_order =
     sort_files ops sort_by sort_order (filter_search ops search (get_all_files ops fs self))"

definition paginate :: "file_record list \<Rightarrow> int \<Rightarrow> int \<Rightarrow> py_exception + page_result" where
  "paginate all_files page0 pp =
     (let n = int (length all_files)
      in case (if n > 0 then ceil_truediv n pp else Inr 1) of
           Inl e \<Rightarrow> Inl e
         | Inr pages \<Rightarrow>
             (let page = max 1 (min page0 pages);
                  start_idx = (page - 1) * pp;
                  end_idx = start_idx + pp
              in Inr \<lparr>files = py_slice all_files start_idx end_idx,
                      pagination = \<lparr>current_page = page, per_page = pp, total_files = n,
                                    total_pages = pages, has_previous = (page > 1),
                                    has_next = (page < pages)\<rparr>,
                      stats = \<lparr>stats_total_files = n,
                               video_files = int (length (filter is_video all_files)),
                               subtitle_files = int (length (filter is_subtitle all_files)),
                               total_size = sum_list (map fsize all_files)\<rparr>\<rparr>))"

definition get_files_paginated ::
  "'fs platform \<Rightarrow> 'fs \<Rightarrow> library_browser \<Rightarrow> int \<Rightarrow> int \<Rightarrow> string option \<Rightarrow> string \<Rightarrow> string
     \<Rightarrow> py_exception + page_result"
where
  "get_files_paginated ops fs self page0 pp search sort_by sort_order =
     paginate (listing ops fs self search sort_by sort_order) page0 pp"

subsection \<open>\<^verbatim>\<open>find_related_subtitle\<close>\<close>

fun first_existing :: "'fs platform \<Rightarrow> 'fs \<Rightarrow> string \<Rightarrow> string \<Rightarrow> string list \<Rightarrow> string option" where
  "first_existing ops fs video_dir video_base [] = None"
| "first_existing ops fs video_dir video_base (ext # exts) =
     (let subtitle_path = join video_dir (video_base @ ext)
      in if exists ops fs subtitle_path then Some subtitle_path
         else first_existing ops fs video_dir video_base exts)"

definition find_related_subtitle ::
  "'fs platform \<Rightarrow> 'fs \<Rightarrow> library_browser \<Rightarrow> string \<Rightarrow> string option"
where
  "find_related_subtitle ops fs self video_path =
     first_existing ops fs (dirname video_path) (fst (splitext (basename video_path)))
       (subtitle_iteration self)"

subsection \<open>\<^verbatim>\<open>rename_file\<close>\<close>

record renamed =
  old :: string
  new :: string
  kind :: string

record rename_result =
  success :: bool
  message :: string
  renamed_files :: "renamed list"

text \<open>The destination of the main rename: the new file name and the new path.\<close>

definition new_filename :: "string \<Rightarrow> string \<Rightarrow> string" where
  "new_filename old_path new_name =
     (let old_ext = snd (splitext (basename old_path));
          new_base = fst (splitext new_name)
      in new_base @ old_ext)"

definition new_path :: "string \<Rightarrow> string \<Rightarrow> string" where
  "new_path old_path new_name = join (dirname old_path) (new_filename old_path new_name)"

definition success_message :: "renamed list \<Rightarrow> string" where
  "success_message rs = ''Successfully renamed '' @ str_nat (length rs) @ '' file(s)''"

text \<open>
  The inner \<^verbatim>\<open>try\<close>: the subtitle step, from the filesystem after the main rename.
  It returns the entries renamed so far and the filesystem; an exception of the
  subtitle's \<^verbatim>\<open>os.rename\<close> is logged and dropped.
\<close>

definition rename_subtitle_step ::
  "'fs platform \<Rightarrow> 'fs \<Rightarrow> library_browser \<Rightarrow> string \<Rightarrow> string \<Rightarrow> renamed list
     \<Rightarrow> renamed list \<times> 'fs"
where
  "rename_subtitle_step ops fs self old_path new_name entries =
     (case find_related_subtitle ops fs self old_path of
        None \<Rightarrow> (entries, fs)
      | Some subtitle_path \<Rightarrow>
          if subtitle_path = [] then (entries, fs)
          else
            (let subtitle_ext = snd (splitext subtitle_path);
                 new_subtitle_path =
                   join (dirname old_path) (fst (splitext new_name) @ subtitle_ext)
             in case os_rename ops fs subtitle_path new_subtitle_path of
                  Inl e \<Rightarrow> (entries, fs)
                | Inr fs' \<Rightarrow>
                    (entries @ [\<lparr>old = subtitle_path, new = new_subtitle_path,
                              kind = ''subtitle''\<rparr>], fs')))"

text \<open>
  The whole method. It returns the result dictionary and the filesystem it leaves; the
  outer \<^verbatim>\<open>except Exception\<close> turns an exception of the main \<^verbatim>\<open>os.rename\<close> into
  a failed result. \<open>Inl\<close> would be an exception reaching the caller.
\<close>

definition rename_file ::
  "'fs platform \<Rightarrow> 'fs \<Rightarrow> library_browser \<Rightarrow> string \<Rightarrow> string \<Rightarrow> bool
     \<Rightarrow> py_exception + (rename_result \<times> 'fs)"
where
  "rename_file ops fs self old_path new_name rename_subtitle =
     (if \<not> exists ops fs old_path then
        Inr (\<lparr>success = False, message = ''File not found: '' @ old_path,
              renamed_files = []\<rparr>, fs)
      else
        (let old_ext = snd (splitext (basename old_path));
             dst = new_path old_path new_name
         in if exists ops fs dst \<and> dst \<noteq> old_path then
              Inr (\<lparr>success = False,
                    message = ''Destination file already exists: ''
                                @ new_filename old_path new_name,
                    renamed_files = []\<rparr>, fs)
            else
              (case os_rename ops fs old_path dst of
                 Inl e \<Rightarrow>
                   Inr (\<lparr>success = False, message = ''Error: '' @ str_exc e,
                         renamed_files = []\<rparr>, fs)
               | Inr fs1 \<Rightarrow>
                   (let main = [\<lparr>old = old_path, new = dst, kind = ''main''\<rparr>];
                        (entries, fs2) =
                          (if rename_subtitle \<and> str_lower ops old_ext \<in> video_extensions
                           then rename_subtitle_step ops fs1 self old_path new_name main
                           else (main, fs1))
                    in Inr (\<lparr>success = True, message = success_message entries,
                             renamed_files = entries\<rparr>, fs2)))))"

subsection \<open>\<^verbatim>\<open>get_file_info\<close>\<close>

text \<open>
  The two keys \<^verbatim>\<open>has_subtitle\<close> and \<^verbatim>\<open>subtitle_path\<close> are present for a video
  only: the outer \<open>None\<close> is their absence.
\<close>

record file_info = file_record +
  has_subtitle :: "bool option"
  subtitle_path :: "string option option"

definition get_file_info ::
  "'fs platform \<Rightarrow> 'fs \<Rightarrow> library_browser \<Rightarrow> string \<Rightarrow> py_exception + file_info option"
where
  "get_file_info ops fs self file_path =
     (if \<not> exists ops fs file_path then Inr None
      else
        (let name = basename file_path;
             file_ext = str_lower ops (snd (splitext name))
         in case os_relpath ops fs file_path (library_path self) of
              Inl e \<Rightarrow> Inl e
            | Inr rel \<Rightarrow>
                (case getsize ops fs file_path of
                   Inl e \<Rightarrow> Inl e
                 | Inr file_size \<Rightarrow>
                     (case getmtime ops fs file_path of
                        Inl e \<Rightarrow> Inl e
                      | Inr modified_time \<Rightarrow>
                          (let video = (file_ext \<in> video_extensions);
                               sub = find_related_subtitle ops fs self file_path
                           in Inr (Some \<lparr>filename = name, full_path = file_path,
                                relative_path = rel, directory = dirname rel,
                                extension = file_ext, fsize = file_size,
                                modified = modified_time, is_video = video,
                                is_subtitle = (file_ext \<in> subtitle_extensions),
                                has_subtitle = (if video then Some (sub \<noteq> None) else None),
                                subtitle_path = (if video then Some sub else None)\<rparr>))))))"

section \<open>A concrete filesystem\<close>

text \<open>
  One instance of the system calls, to run the operations on concrete inputs: a flat
  store of regular files, a path with its size and modification time. With
  \<open>replace\<close> the rename replaces an existing destination, as \<^verbatim>\<open>os.rename\<close> does
  for regular files on POSIX; without it the rename refuses an existing destination, as
  \<^verbatim>\<open>os.rename\<close> does on Windows.
\<close>

type_synonym flat_fs = "(string \<times> stat_result) list"

definition flat_stat :: "flat_fs \<Rightarrow> string \<Rightarrow> py_exception + stat_result" where
  "flat_stat fs p =
     (case map_of fs p of
        None \<Rightarrow> Inl (OSError ''No such file or directory'')
      | Some st \<Rightarrow> Inr st)"

definition flat_rename :: "bool \<Rightarrow> flat_fs \<Rightarrow> string \<Rightarrow> string \<Rightarrow> py_exception + flat_fs" where
  "flat_rename replace fs src dst =
     (case map_of fs src of
        None \<Rightarrow> Inl (OSError ''No such file or directory'')
      | Some st \<Rightarrow>
          if \<not> replace \<and> map_of fs dst \<noteq> None \<and> dst \<noteq> src then Inl (OSError ''File exists'')
          else Inr ((dst, st) # filter (\<lambda>e. fst e \<noteq> src \<and> fst e \<noteq> dst) fs))"

definition flat_walk :: "flat_fs \<Rightarrow> string \<Rightarrow> (string \<times> string list \<times> string list) list" where
  "flat_walk fs walk_root =
     [(walk_root, [], map (\<lambda>e. basename (fst e)) (filter (\<lambda>e. dirname (fst e) = walk_root) fs))]"

text \<open>The ASCII part of \<^verbatim>\<open>str.lower()\<close>, which is all the file names below need.\<close>

definition ascii_lower_char :: "char \<Rightarrow> char" where
  "ascii_lower_char c =
     (case map_of (zip ''ABCDEFGHIJKLMNOPQRSTUVWXYZ'' ''abcdefghijklmnopqrstuvwxyz'') c of
        None \<Rightarrow> c | Some d \<Rightarrow> d)"

definition ascii_lower :: "string \<Rightarrow> string" where
  "ascii_lower s = map ascii_lower_char s"

text \<open>All paths below are absolute, so the working directory is not read.\<close>

definition flat_relpath :: "string \<Rightarrow> string \<Rightarrow> string" where
  "flat_relpath path start =
     (if take (length start + 1) path = start @ ''/'' then drop (length start + 1) path
      else path)"

definition flat_ops :: "bool \<Rightarrow> flat_fs platform" where
  "flat_ops replace =
     \<lparr>os_stat = flat_stat, os_rename = flat_rename replace, os_walk = flat_walk,
      os_relpath = (\<lambda>fs path start. Inr (flat_relpath path start)),
      str_lower = ascii_lower\<rparr>"

text \<open>
  The same system after the working directory of the process has been removed:
  \<^verbatim>\<open>os.path.relpath\<close> calls \<^verbatim>\<open>os.getcwd\<close> for a relative start, and that raises.
\<close>

definition flat_ops_no_cwd :: "flat_fs platform" where
  "flat_ops_no_cwd =
     (flat_ops True)
       \<lparr>os_relpath := (\<lambda>fs path start.
          if start \<noteq> [] \<and> hd start = CHR ''/'' then Inr (flat_relpath path start)
          else Inl (OSError ''No such file or directory''))\<rparr>"

definition lib :: library_browser where
  "lib = \<lparr>library_path = ''/lib'',
          subtitle_iteration = [''.srt'', ''.sub'', ''.vtt'', ''.ass'', ''.ssa'']\<rparr>"

definition file_of :: "int \<Rightarrow> rat \<Rightarrow> stat_result" where
  "file_of n t = \<lparr>st_size = n, st_mtime = t\<rparr>"

text \<open>A library of three videos and a subtitle, and the library directory itself.\<close>

definition fs_movies :: flat_fs where
  "fs_movies =
     [(''/lib'', file_of 4096 0),
      (''/lib/c.mp4'', file_of 30 3),
      (''/lib/a.mkv'', file_of 10 1),
      (''/lib/b.avi'', file_of 20 2),
      (''/lib/a.srt'', file_of 1 4)]"

text \<open>A video with its subtitle, and a second subtitle at the name the pair moves to.\<close>

definition fs_pair :: flat_fs where
  "fs_pair =
     [(''/lib'', file_of 4096 0),
      (''/lib/movie.mp4'', file_of 700 1),
      (''/lib/movie.srt'', file_of 5 2),
      (''/lib/Movie (2010).srt'', file_of 9 3)]"

text \<open>A file without extension.\<close>

definition fs_plain :: flat_fs where
  "fs_plain = [(''/lib'', file_of 4096 0), (''/lib/README'', file_of 12 1)]"

text \<open>The records the scan of \<open>fs_movies\<close> yields.\<close>

definition rec_c :: file_record where
  "rec_c = \<lparr>filename = ''c.mp4'', full_path = ''/lib/c.mp4'', relative_path = ''c.mp4'',
     directory = [], extension = ''.mp4'', fsize = 30, modified = 3, is_video = True,
     is_subtitle = False\<rparr>"

definition rec_a :: file_record where
  "rec_a = \<lparr>filename = ''a.mkv'', full_path = ''/lib/a.mkv'', relative_path = ''a.mkv'',
     directory = [], extension = ''.mkv'', fsize = 10, modified = 1, is_video = True,
     is_subtitle = False\<rparr>"

definition rec_b :: file_record where
  "rec_b = \<lparr>filename = ''b.avi'', full_path = ''/lib/b.avi'', relative_path = ''b.avi'',
     directory = [], extension = ''.avi'', fsize = 20, modified = 2, is_video = True,
     is_subtitle = False\<rparr>"

definition rec_s :: file_record where
  "rec_s = \<lparr>filename = ''a.srt'', full_path = ''/lib/a.srt'', relative_path = ''a.srt'',
     directory = [], extension = ''.srt'', fsize = 1, modified = 4, is_video = False,
     is_subtitle = True\<rparr>"

text \<open>
  \<open>fs_pair\<close> after the main rename of \<^verbatim>\<open>movie.mp4\<close> to \<^verbatim>\<open>Movie (2010).mp4\<close>, and
  after the subtitle has followed it onto the subtitle that was there.
\<close>

definition fs_pair_main :: flat_fs where
  "fs_pair_main =
     [(''/lib/Movie (2010).mp4'', file_of 700 1),
      (''/lib'', file_of 4096 0),
      (''/lib/movie.srt'', file_of 5 2),
      (''/lib/Movie (2010).srt'', file_of 9 3)]"

definition fs_pair_both :: flat_fs where
  "fs_pair_both =
     [(''/lib/Movie (2010).srt'', file_of 5 2),
      (''/lib/Movie (2010).mp4'', file_of 700 1),
      (''/lib'', file_of 4096 0)]"

section \<open>Auxiliary facts\<close>

lemmas path_defs = Let_def splitext_def rfind_def py_slice_def slice_index_def basename_def
  dirname_def rstrip_def join_def

lemmas ext_defs = supported_extensions_def video_extensions_def subtitle_extensions_def

lemmas flat_defs = exists_def stat_def getsize_def getmtime_def flat_ops_def
  flat_stat_def flat_rename_def flat_walk_def flat_relpath_def file_of_def lib_def
  ascii_lower_def ascii_lower_char_def

lemmas float_defs = ceil_truediv_def round_double_def float_exponent_def scaled_le_def
  round_half_even_def compute_bitlen Let_def

lemmas rec_defs = rec_c_def rec_a_def rec_b_def rec_s_def

subsection \<open>Arithmetic, slices and sorting\<close>



lemma scaled_le_mono:
  assumes "scaled_le b e a" "e' \<le> e" "0 < a" "0 < b"
  shows "scaled_le b e' a"
proof -
  consider "0 \<le> e'" | "e' < 0" "0 \<le> e" | "e < 0" by linarith
  then show ?thesis
  proof cases
    case 1
    then have "(2::int) ^ nat e' \<le> 2 ^ nat e" using assms(2) by (simp add: power_increasing)
    then have "b * 2 ^ nat e' \<le> b * 2 ^ nat e" using assms(4) by simp
    then show ?thesis using assms(1,2) 1 by (simp add: scaled_le_def)
  next
    case 2
    have "b \<le> b * 2 ^ nat e" using assms(4) by simp
    also have "\<dots> \<le> a" using assms(1) 2 by (simp add: scaled_le_def)
    also have "a \<le> a * 2 ^ nat (- e')" using assms(3) by simp
    finally show ?thesis using 2 by (simp add: scaled_le_def)
  next
    case 3
    then have "(2::int) ^ nat (- e) \<le> 2 ^ nat (- e')" using assms(2) by (simp add: power_increasing)
    then have "a * 2 ^ nat (- e) \<le> a * 2 ^ nat (- e')" using assms(3) by simp
    then show ?thesis using assms(1,2) 3 by (simp add: scaled_le_def)
  qed
qed

lemma bitlen_pos_bounds:
  assumes "0 < (a::int)"
  shows "\<exists>l::nat. bitlen a = int l + 1 \<and> 2 ^ l \<le> a \<and> a < 2 ^ (l + 1)"
proof -
  have "bitlen a \<noteq> 0" using assms by (simp add: bitlen_eq_zero_iff)
  then have pos: "1 \<le> bitlen a" using bitlen_nonneg [of a] by linarith
  define l where "l = nat (bitlen a - 1)"
  have l1: "nat (bitlen a - 1) = l" by (simp add: l_def)
  have l2: "nat (bitlen a) = l + 1" using pos unfolding l_def by linarith
  have eq: "bitlen a = int l + 1" using pos unfolding l_def by linarith
  have "2 ^ l \<le> a \<and> a < 2 ^ (l + 1)"
    using bitlen_bounds [OF assms] unfolding l1 l2 .
  with eq show ?thesis by blast
qed

text \<open>The exponent is not above the quotient: \<open>2^e \<le> a / b\<close>.\<close>

lemma float_exponent_le:
  assumes "0 < a" "0 < b"
  shows "scaled_le b (float_exponent a b) a"
proof (cases "scaled_le b (bitlen a - bitlen b) a")
  case True
  then show ?thesis by (simp add: float_exponent_def)
next
  case False
  from bitlen_pos_bounds [OF assms(1)] obtain la :: nat
    where la: "bitlen a = int la + 1" "2 ^ la \<le> a" by blast
  from bitlen_pos_bounds [OF assms(2)] obtain lb :: nat
    where lb: "bitlen b = int lb + 1" "b < 2 ^ (lb + 1)" by blast
  have e: "float_exponent a b = int la - int lb - 1"
    using False la(1) lb(1) by (simp add: float_exponent_def Let_def)
  show ?thesis
  proof (cases "lb + 1 \<le> la")
    case True
    then have n: "nat (int la - int lb - 1) = la - (lb + 1)" by linarith
    have "b * 2 ^ (la - (lb + 1)) \<le> 2 ^ (lb + 1) * 2 ^ (la - (lb + 1))"
      using lb(2) by simp
    also have "\<dots> = (2::int) ^ ((lb + 1) + (la - (lb + 1)))" by (rule power_add [symmetric])
    also have "(lb + 1) + (la - (lb + 1)) = la" using True by simp
    finally have fin: "b * 2 ^ (la - (lb + 1)) \<le> a" using la(2) by linarith
    have pos: "0 \<le> int la - int lb - 1" using True by linarith
    show ?thesis unfolding e scaled_le_def using fin pos by (simp only: n if_True)
  next
    case False
    then have n: "nat (- (int la - int lb - 1)) = (lb + 1) - la" by linarith
    have "b \<le> 2 ^ (lb + 1)" using lb(2) by simp
    also have "lb + 1 = la + ((lb + 1) - la)" using False by simp
    also have "(2::int) ^ (la + ((lb + 1) - la)) = 2 ^ la * 2 ^ ((lb + 1) - la)"
      by (rule power_add)
    also have "\<dots> \<le> a * 2 ^ ((lb + 1) - la)" using la(2) by simp
    finally have fin: "b \<le> a * 2 ^ ((lb + 1) - la)" .
    have neg: "\<not> 0 \<le> int la - int lb - 1" using False by linarith
    show ?thesis unfolding e scaled_le_def using fin neg by (simp only: n if_False)
  qed
qed




lemma ceil_truediv_nonzero: "b \<noteq> 0 \<Longrightarrow> \<exists>t. ceil_truediv a b = Inr t"
  by (simp add: ceil_truediv_def)



lemma round_half_even_le:
  assumes "0 < d" "n \<le> t * d"
  shows "round_half_even n d \<le> t"
proof -
  have "n div d \<le> (t * d) div d" using assms by (intro zdiv_mono1) simp_all
  then have f: "n div d \<le> t" using assms(1) by simp
  show ?thesis
  proof (cases "n div d = t")
    case True
    have "n = n div d * d + n mod d" by simp
    then have "n = t * d + n mod d" using True by simp
    moreover have "0 \<le> n mod d" using assms(1) by simp
    ultimately have "n mod d = 0" using assms(2) by linarith
    then show ?thesis using True assms(1) by (simp add: round_half_even_def Let_def)
  next
    case False
    then have "n div d + 1 \<le> t" using f by linarith
    then show ?thesis by (simp add: round_half_even_def Let_def)
  qed
qed

lemma round_half_even_gt:
  assumes "0 < d" "(2 * t + 1) * d < 2 * n"
  shows "t < round_half_even n d"
proof -
  define f where "f = n div d"
  define r where "r = n mod d"
  have n: "n = f * d + r" by (simp add: f_def r_def)
  have r: "0 \<le> r" "r < d" using assms(1) by (simp_all add: r_def)
  have ge: "f \<le> round_half_even n d"
    by (simp add: round_half_even_def Let_def f_def)
  consider "t < f" | "f = t" | "f + 1 \<le> t" by linarith
  then show ?thesis
  proof cases
    case 1
    then show ?thesis using ge by linarith
  next
    case 2
    have "(2 * t + 1) * d = 2 * (t * d) + d" by (simp add: algebra_simps)
    then have "d < 2 * r" using assms(2) n 2 by (simp add: algebra_simps)
    then show ?thesis using 2 by (simp add: round_half_even_def Let_def f_def r_def)
  next
    case 3
    then have "(f + 1) * d \<le> t * d" using assms(1) by (intro mult_right_mono) simp_all
    moreover have "n < (f + 1) * d" using n r by (simp add: algebra_simps)
    moreover have "(2 * t + 1) * d = 2 * (t * d) + d" by (simp add: algebra_simps)
    ultimately show ?thesis using assms by linarith
  qed
qed

lemma ceil_div_bounds:
  assumes "0 < (b::int)"
  shows "(- ((- a) div b) - 1) * b < a" and "a \<le> - ((- a) div b) * b"
proof -
  define q where "q = (- a) div b"
  define r where "r = (- a) mod b"
  have "- a = q * b + r" by (simp add: q_def r_def)
  moreover have "0 \<le> r" "r < b" using assms by (simp_all add: r_def)
  ultimately show "(- ((- a) div b) - 1) * b < a" and "a \<le> - ((- a) div b) * b"
    unfolding q_def [symmetric] by (simp_all add: algebra_simps)
qed


text \<open>
  Below \<open>2^53\<close> the rounding does not reach the next integer: the ceiling of the
  double is the ceiling of the quotient.
\<close>

lemma round_double_ceiling:
  assumes "0 < a" "a < 2 ^ 53" "0 < b" "b < a * 2 ^ 1075"
  shows "\<lceil>round_double a b\<rceil> = - ((- a) div b)"
proof -
  define e where "e = float_exponent a b"
  define u where "u = max e (- 1022) - 52"
  define c where "c = - ((- a) div b)"
  have cb: "(c - 1) * b < a" "a \<le> c * b"
    unfolding c_def using ceil_div_bounds [OF assms(3), of a] by simp_all
  have le: "scaled_le b e a" unfolding e_def by (rule float_exponent_le [OF assms(1,3)])
  have rd: "round_double a b =
     (if 0 \<le> u then of_int (round_half_even a (b * 2 ^ nat u) * 2 ^ nat u)
      else of_int (round_half_even (a * 2 ^ nat (- u)) b) / of_int (2 ^ nat (- u)))"
    unfolding round_double_def Let_def e_def [symmetric] u_def [symmetric] ..
  show ?thesis
  proof (cases "0 \<le> u")
    case True
    then have e52: "52 \<le> e" by (simp add: u_def max_def split: if_splits)
    from scaled_le_mono [OF le e52 assms(1,3)] have "b * 2 ^ 52 \<le> a" by (simp add: scaled_le_def)
    then have b1: "b = 1" using assms(2,3) by simp
    have "(2::int) ^ nat e \<le> a" using le e52 b1 by (simp add: scaled_le_def)
    then have "(2::int) ^ nat e < 2 ^ 53" using assms(2) by linarith
    then have "nat e < 53" by (rule power_less_imp_less_exp [rotated]) simp
    then have u0: "u = 0" using e52 by (simp add: u_def)
    have "round_double a b = of_int (round_half_even a (b * 2 ^ nat u) * 2 ^ nat u)"
      using rd True by simp
    moreover have "round_half_even a 1 = a" by (simp add: round_half_even_def)
    ultimately have "round_double a b = of_int a" by (simp add: u0 b1)
    then show ?thesis by (simp add: b1)
  next
    case False
    define K :: int where "K = 2 ^ nat (- u)"
    have K: "0 < K" by (simp add: K_def)
    define m where "m = round_half_even (a * K) b"
    have d1: "1 \<le> a - (c - 1) * b" using cb(1) by simp
    have twoK: "b < 2 * K * (a - (c - 1) * b)"
    proof (cases "e \<le> - 1022")
      case True
      then have k: "K = 2 ^ 1074" by (simp add: K_def u_def)
      show ?thesis
      proof (cases "a \<le> b")
        case True
        have "(c - 1) * b < 1 * b" using cb(1) True by simp
        then have "c - 1 < 1" using assms(3) by (simp only: mult_less_cancel_right_pos)
        moreover have "0 < c * b" using cb(2) assms(1) by linarith
        then have "0 < c" using assms(3) by (simp add: zero_less_mult_iff)
        ultimately have "c = 1" by linarith
        then show ?thesis using assms(4) by (simp add: k)
      next
        case False
        then have "b < 2 * K" using assms(2) by (simp add: k)
        also have "2 * K = 2 * K * 1" by simp
        also have "\<dots> \<le> 2 * K * (a - (c - 1) * b)"
          using d1 K by (intro mult_left_mono) simp_all
        finally show ?thesis .
      qed
    next
      case False
      then have u: "u = e - 52" by (simp add: u_def)
      have "b < 2 * K"
      proof (cases "0 \<le> e")
        case True
        have "nat (- u) + nat e = 52" using True \<open>\<not> 0 \<le> u\<close> u by linarith
        then have "K * 2 ^ nat e = 2 ^ 52" unfolding K_def by (simp add: power_add [symmetric])
        then have eq: "(2 * K) * 2 ^ nat e = 2 ^ 53" by simp
        have lt: "b * 2 ^ nat e < 2 ^ 53" using le True assms(2) by (simp add: scaled_le_def)
        have "b * 2 ^ nat e < (2 * K) * 2 ^ nat e" using lt by (simp only: eq)
        moreover have "(0::int) < 2 ^ nat e" by simp
        ultimately show ?thesis by (simp only: mult_less_cancel_right_pos)
      next
        case False
        then have "nat (- u) = 52 + nat (- e)" using u by linarith
        then have k: "K = 2 ^ 52 * 2 ^ nat (- e)" unfolding K_def by (simp add: power_add)
        have "b \<le> a * 2 ^ nat (- e)" using le False by (simp add: scaled_le_def)
        also have "\<dots> < 2 ^ 53 * 2 ^ nat (- e)" using assms(2) by simp
        also have "\<dots> = 2 * K" by (simp add: k)
        finally show ?thesis .
      qed
      also have "2 * K = 2 * K * 1" by simp
      also have "\<dots> \<le> 2 * K * (a - (c - 1) * b)"
        using d1 K by (intro mult_left_mono) simp_all
      finally show ?thesis .
    qed
    have "a * K \<le> (c * b) * K" using cb(2) K by (intro mult_right_mono) simp_all
    then have "a * K \<le> (c * K) * b" by (simp add: algebra_simps)
    then have up: "m \<le> c * K" unfolding m_def by (rule round_half_even_le [OF assms(3)])
    have "(2 * ((c - 1) * K) + 1) * b = 2 * (a * K) - (2 * K * (a - (c - 1) * b) - b)"
      by (simp add: algebra_simps)
    then have "(2 * ((c - 1) * K) + 1) * b < 2 * (a * K)" using twoK by linarith
    then have lo: "(c - 1) * K < m" unfolding m_def by (rule round_half_even_gt [OF assms(3)])
    have val: "round_double a b = of_int m / of_int K"
      using False by (simp add: rd m_def K_def)
    have rK: "0 < real_of_int K" using K by simp
    have "real_of_int ((c - 1) * K) < of_int m" using lo by (simp only: of_int_less_iff)
    then have "(of_int c - 1) * real_of_int K < of_int m" by simp
    then have l: "of_int c - 1 < real_of_int m / of_int K"
      using rK by (simp add: pos_less_divide_eq)
    have "real_of_int m \<le> of_int (c * K)" using up by (simp only: of_int_le_iff)
    then have "real_of_int m \<le> of_int c * of_int K" by simp
    then have h: "real_of_int m / of_int K \<le> of_int c"
      using rK by (simp add: pos_divide_le_eq)
    show ?thesis unfolding val c_def [symmetric] by (rule ceiling_unique [OF l h])
  qed
qed

lemma ceil_truediv_exact:
  assumes "0 < a" "a < 2 ^ 53" "0 < b" "b < a * 2 ^ 1075"
  shows "ceil_truediv a b = Inr (- ((- a) div b))"
  using round_double_ceiling [OF assms] assms(1,3) by (simp add: ceil_truediv_def)

lemma py_slice_nonneg:
  assumes "0 \<le> s" "0 \<le> e"
  shows "py_slice xs s e = take (nat (e - s)) (drop (nat s) xs)"
  using assms by (auto simp: py_slice_def slice_index_def Let_def min_def)

lemma mset_py_sort [simp]: "mset (py_sort k r xs) = mset xs"
  by (simp add: py_sort_def)

lemma mset_sort_files [simp]: "mset (sort_files ops sb so xs) = mset xs"
  by (simp add: sort_files_def Let_def)

lemma length_sort_files [simp]: "length (sort_files ops sb so xs) = length xs"
  using mset_sort_files [of ops sb so xs] by (metis size_mset)

lemma sort_files_Nil [simp]: "sort_files ops sb so [] = []"
  by (simp add: sort_files_def py_sort_def Let_def)

lemma sort_files_Nil_iff [simp]: "sort_files ops sb so xs = [] \<longleftrightarrow> xs = []"
  using length_sort_files [of ops sb so xs] by (metis length_0_conv)

lemma length_filter_sort_files [simp]:
  "length (filter P (sort_files ops sb so xs)) = length (filter P xs)"
proof -
  have "mset (filter P (sort_files ops sb so xs)) = mset (filter P xs)"
    by simp
  then show ?thesis by (metis size_mset)
qed

lemma sum_list_sort_files [simp]:
  "sum_list (map f (sort_files ops sb so xs)) = sum_list (map (f :: file_record \<Rightarrow> int) xs)"
proof -
  have "mset (map f (sort_files ops sb so xs)) = mset (map f xs)"
    by simp
  then show ?thesis by (metis sum_mset_sum_list)
qed

text \<open>With pairwise distinct keys the sorted list does not depend on the input order.\<close>

lemma sort_key_rev_distinct:
  assumes "distinct (map k xs)"
  shows "sort_key k (rev xs) = sort_key k xs"
proof (rule sort_key_inj_key_eq)
  show "mset (rev xs) = mset (sort_key k xs)" by simp
  show "inj_on k (set (rev xs))" using assms by (simp add: distinct_map)
  show "sorted (map k (sort_key k xs))" by simp
qed

lemma py_sort_reverse_distinct:
  "distinct (map k xs) \<Longrightarrow> py_sort k True xs = rev (py_sort k False xs)"
  by (simp add: py_sort_def sort_key_rev_distinct)

subsection \<open>The pagination step\<close>

lemma paginate_pages:
  assumes "fl \<noteq> []" and "ceil_truediv (int (length fl)) pp = Inr pages" and "0 < pp"
  shows "paginate fl pg pp =
     (let page = max 1 (min pg pages)
      in Inr \<lparr>files = take (nat pp) (drop (nat ((page - 1) * pp)) fl),
              pagination = \<lparr>current_page = page, per_page = pp, total_files = int (length fl),
                            total_pages = pages, has_previous = (page > 1),
                            has_next = (page < pages)\<rparr>,
              stats = \<lparr>stats_total_files = int (length fl),
                       video_files = int (length (filter is_video fl)),
                       subtitle_files = int (length (filter is_subtitle fl)),
                       total_size = sum_list (map fsize fl)\<rparr>\<rparr>)"
proof -
  have n: "0 < int (length fl)" using assms(1) by simp
  define page where "page = max 1 (min pg pages)"
  have "1 \<le> page" by (simp add: page_def)
  then have s: "0 \<le> (page - 1) * pp" using assms(3) by simp
  then have e: "0 \<le> (page - 1) * pp + pp" using assms(3) by simp
  have "py_slice fl ((page - 1) * pp) ((page - 1) * pp + pp)
          = take (nat pp) (drop (nat ((page - 1) * pp)) fl)"
    using py_slice_nonneg [OF s e, of fl] by simp
  then show ?thesis
    using n by (simp add: paginate_def assms(2) Let_def page_def)
qed

lemma paginate_stats:
  assumes "pp \<noteq> 0"
  shows "\<exists>r. paginate fl pg pp = Inr r
     \<and> stats r = \<lparr>stats_total_files = int (length fl),
                   video_files = int (length (filter is_video fl)),
                   subtitle_files = int (length (filter is_subtitle fl)),
                   total_size = sum_list (map fsize fl)\<rparr>"
proof -
  from ceil_truediv_nonzero [OF assms] obtain t
    where "ceil_truediv (int (length fl)) pp = Inr t" by blast
  then show ?thesis by (simp add: paginate_def Let_def)
qed

text \<open>For a list shorter than \<open>2^53\<close> the page count is the exact ceiling.\<close>

lemma paginate_total_pages_exact:
  assumes "fl \<noteq> []" and "int (length fl) < 2 ^ 53" and "0 < pp"
    and "pp < int (length fl) * 2 ^ 1075"
  shows "\<exists>r. paginate fl pg pp = Inr r
     \<and> total_pages (pagination r) = - ((- int (length fl)) div pp)"
proof -
  have n: "0 < int (length fl)" using assms(1) by simp
  show ?thesis
    unfolding paginate_pages [OF assms(1) ceil_truediv_exact [OF n assms(2,3,4)] assms(3)]
    by (simp add: Let_def)
qed

lemma paginate_Nil:
  "paginate [] pg pp =
     Inr \<lparr>files = [],
          pagination = \<lparr>current_page = 1, per_page = pp, total_files = 0, total_pages = 1,
                        has_previous = False, has_next = False\<rparr>,
          stats = \<lparr>stats_total_files = 0, video_files = 0, subtitle_files = 0,
                   total_size = 0\<rparr>\<rparr>"
  by (simp add: paginate_def py_slice_def Let_def)

lemma paginate_zero: "fl \<noteq> [] \<Longrightarrow> paginate fl pg 0 = Inl ZeroDivisionError"
  by (simp add: paginate_def ceil_truediv_def)

lemma paginate_nonzero: "pp \<noteq> 0 \<Longrightarrow> \<exists>r. paginate fl pg pp = Inr r"
  using paginate_stats [of pp fl pg] by blast

subsection \<open>Existence and the rename\<close>

lemma exists_stat: "exists ops fs p \<Longrightarrow> \<exists>st. stat ops fs p = Inr st"
  by (simp add: exists_def split: sum.splits)

lemma exists_nonempty: "exists ops fs p \<Longrightarrow> p \<noteq> []"
  by (auto simp: exists_def stat_def)

lemma first_existing_exists:
  "first_existing ops fs d b exts = Some p \<Longrightarrow> exists ops fs p"
  by (induction exts) (auto simp: Let_def split: if_splits)

lemma find_related_subtitle_nonempty:
  "find_related_subtitle ops fs self v = Some p \<Longrightarrow> p \<noteq> []"
  unfolding find_related_subtitle_def
  by (blast dest: first_existing_exists exists_nonempty)

text \<open>The method once both preconditions hold and the main rename has gone through.\<close>

lemma rename_file_main_ok:
  assumes "exists ops fs old_path"
    and "\<not> (exists ops fs (new_path old_path new_name) \<and> new_path old_path new_name \<noteq> old_path)"
    and "os_rename ops fs old_path (new_path old_path new_name) = Inr fs1"
  shows "rename_file ops fs self old_path new_name rs =
     (let main = [\<lparr>old = old_path, new = new_path old_path new_name, kind = ''main''\<rparr>];
          (entries, fs2) =
            (if rs \<and> str_lower ops (snd (splitext (basename old_path))) \<in> video_extensions
             then rename_subtitle_step ops fs1 self old_path new_name main
             else (main, fs1))
      in Inr (\<lparr>success = True, message = success_message entries,
               renamed_files = entries\<rparr>, fs2))"
proof -
  have free: "(exists ops fs (new_path old_path new_name)
                 \<and> new_path old_path new_name \<noteq> old_path) = False"
    using assms(2) by simp
  show ?thesis
    unfolding rename_file_def Let_def free
    by (simp only: assms(1,3) not_True_eq_False if_False sum.case)
qed

lemma rename_file_total:
  "\<exists>r fs'. rename_file ops fs self old_path new_name rs = Inr (r, fs')"
  by (auto simp: rename_file_def Let_def split: sum.splits prod.splits)

text \<open>
  The lookup has no \<^verbatim>\<open>try\<close>: it returns unless \<^verbatim>\<open>os.path.relpath\<close> raises, and
  then that exception leaves it.
\<close>

lemma get_file_info_missing: "\<not> exists ops fs p \<Longrightarrow> get_file_info ops fs self p = Inr None"
  by (simp add: get_file_info_def)

lemma get_file_info_raises:
  assumes "exists ops fs p" and "os_relpath ops fs p (library_path self) = Inl e"
  shows "get_file_info ops fs self p = Inl e"
  using assms by (simp add: get_file_info_def Let_def)

lemma get_file_info_returns:
  assumes "exists ops fs p" and "os_relpath ops fs p (library_path self) = Inr rel"
  shows "\<exists>i. get_file_info ops fs self p = Inr (Some i)"
proof -
  from exists_stat [OF assms(1)] obtain st where "stat ops fs p = Inr st" ..
  then show ?thesis
    using assms by (simp add: get_file_info_def Let_def getsize_def getmtime_def)
qed

subsection \<open>Extensions\<close>

lemma rfind_from_notin: "c \<notin> set xs \<Longrightarrow> rfind_from c xs i f = f"
  by (induction xs arbitrary: i f) auto

lemma rfind_from_append:
  "rfind_from c (xs @ ys) i f = rfind_from c ys (i + int (length xs)) (rfind_from c xs i f)"
  by (induction xs arbitrary: i f) (auto simp: algebra_simps)

lemma rfind_notin: "c \<notin> set p \<Longrightarrow> rfind c p = - 1"
  by (simp add: rfind_def rfind_from_notin)

lemma rfind_append_notin: "c \<notin> set ys \<Longrightarrow> rfind c (xs @ ys) = rfind c xs"
  by (simp add: rfind_def rfind_from_append rfind_from_notin)

lemma rfind_last: "c \<notin> set ys \<Longrightarrow> rfind c (xs @ c # ys) = int (length xs)"
  by (simp add: rfind_def rfind_from_append rfind_from_notin)

lemma rfind_less: "rfind c p < int (length p)"
proof (cases "c \<in> set p")
  case True
  then obtain xs ys where "p = xs @ c # ys" "c \<notin> set ys"
    by (meson split_list_last)
  then show ?thesis by (simp add: rfind_last)
next
  case False
  then show ?thesis by (simp add: rfind_notin)
qed

lemma rfind_ge: "- 1 \<le> rfind c p"
proof (cases "c \<in> set p")
  case True
  then obtain xs ys where "p = xs @ c # ys" "c \<notin> set ys"
    by (meson split_list_last)
  then show ?thesis by (simp add: rfind_last)
next
  case False
  then show ?thesis by (simp add: rfind_notin)
qed

lemma basename_slice:
  "py_slice (b @ e) (rfind CHR ''/'' b + 1) (int (length b)) = basename b"
proof -
  have lo: "0 \<le> rfind CHR ''/'' b + 1" using rfind_ge [of "CHR ''/''" b] by simp
  have hi: "rfind CHR ''/'' b + 1 \<le> int (length b)" using rfind_less [of "CHR ''/''" b] by simp
  have "nat (rfind CHR ''/'' b + 1) \<le> length b" using lo hi by simp
  then show ?thesis
    using lo hi by (simp add: py_slice_nonneg basename_def nat_diff_distrib)
qed

text \<open>What \<open>splitext\<close> returns as an extension is empty, or a dot followed by neither a dot nor a separator.\<close>

lemma splitext_extension_shape:
  assumes "snd (splitext p) \<noteq> []"
  shows "\<exists>ys. snd (splitext p) = CHR ''.'' # ys \<and> CHR ''.'' \<notin> set ys \<and> CHR ''/'' \<notin> set ys"
proof -
  have gt: "rfind CHR ''.'' p > rfind CHR ''/'' p"
    and ext: "snd (splitext p) = drop (nat (rfind CHR ''.'' p)) p"
    using assms by (auto simp: splitext_def Let_def split: if_splits)
  have "CHR ''.'' \<in> set p"
    using gt rfind_ge [of "CHR ''/''" p] rfind_notin [of "CHR ''.''" p] by fastforce
  then obtain xs ys where p: "p = xs @ CHR ''.'' # ys" and dot: "CHR ''.'' \<notin> set ys"
    by (meson split_list_last)
  have d: "rfind CHR ''.'' p = int (length xs)" using p dot by (simp add: rfind_last)
  have "CHR ''/'' \<notin> set ys"
  proof
    assume "CHR ''/'' \<in> set ys"
    then obtain us vs where ys: "ys = us @ CHR ''/'' # vs" and "CHR ''/'' \<notin> set vs"
      by (meson split_list_last)
    then have "rfind CHR ''/'' ((xs @ CHR ''.'' # us) @ CHR ''/'' # vs)
                 = int (length (xs @ CHR ''.'' # us))"
      by (rule_tac rfind_last)
    then have "rfind CHR ''/'' p = int (length xs) + 1 + int (length us)"
      using p ys by simp
    then show False using gt d by simp
  qed
  moreover have "snd (splitext p) = CHR ''.'' # ys" using ext d p by simp
  ultimately show ?thesis using dot by blast
qed

text \<open>
  Appending such an extension to a stem: \<open>splitext\<close> finds it again exactly when the
  last component of the stem has a character other than a dot.
\<close>

lemma splitext_append_extension:
  assumes "CHR ''.'' \<notin> set ys" and "CHR ''/'' \<notin> set ys"
  shows "splitext (b @ CHR ''.'' # ys) =
     (if list_ex (\<lambda>c. c \<noteq> CHR ''.'') (basename b) then (b, CHR ''.'' # ys)
      else (b @ CHR ''.'' # ys, []))"
proof -
  have d: "rfind CHR ''.'' (b @ CHR ''.'' # ys) = int (length b)"
    using assms(1) by (rule rfind_last)
  have s: "rfind CHR ''/'' (b @ CHR ''.'' # ys) = rfind CHR ''/'' b"
    using assms(2) by (simp add: rfind_append_notin)
  show ?thesis
    unfolding splitext_def Let_def d s basename_slice
    using rfind_less [of "CHR ''/''" b] by simp
qed

lemma new_filename_keeps_extension:
  assumes "snd (splitext (basename old_path)) \<noteq> []"
    and "list_ex (\<lambda>c. c \<noteq> CHR ''.'') (basename (fst (splitext new_name)))"
  shows "splitext (new_filename old_path new_name)
     = (fst (splitext new_name), snd (splitext (basename old_path)))"
proof -
  from splitext_extension_shape [OF assms(1)] obtain ys
    where e: "snd (splitext (basename old_path)) = CHR ''.'' # ys"
      and "CHR ''.'' \<notin> set ys" "CHR ''/'' \<notin> set ys"
    by blast
  then show ?thesis
    using assms(2) by (simp add: new_filename_def Let_def splitext_append_extension)
qed

lemma new_filename_loses_extension:
  assumes "snd (splitext (basename old_path)) \<noteq> []"
    and "\<not> list_ex (\<lambda>c. c \<noteq> CHR ''.'') (basename (fst (splitext new_name)))"
  shows "snd (splitext (new_filename old_path new_name)) = []"
proof -
  from splitext_extension_shape [OF assms(1)] obtain ys
    where e: "snd (splitext (basename old_path)) = CHR ''.'' # ys"
      and "CHR ''.'' \<notin> set ys" "CHR ''/'' \<notin> set ys"
    by blast
  then show ?thesis
    using assms(2) by (simp add: new_filename_def Let_def splitext_append_extension)
qed

section \<open>Concrete runs\<close>

lemma scan_movies:
  "get_all_files (flat_ops replace) fs_movies lib = [rec_c, rec_a, rec_b, rec_s]"
  by (simp add: get_all_files_def scan_file_def fs_movies_def flat_defs path_defs ext_defs
        rec_defs)

lemma listing_movies_size:
  "listing (flat_ops replace) fs_movies lib None ''size'' ''asc'' = [rec_s, rec_a, rec_b, rec_c]"
  by (simp add: listing_def scan_movies filter_search_def sort_files_def py_sort_def rec_defs)

lemma filter_movies_none:
  "filter_search (flat_ops replace) (Some ''xyz'')
     (get_all_files (flat_ops replace) fs_movies lib) = []"
  unfolding scan_movies
  by (simp add: filter_search_def flat_ops_def ascii_lower_def ascii_lower_char_def rec_defs)

lemma new_path_movie: "new_path ''/lib/movie.mp4'' ''Movie (2010)'' = ''/lib/Movie (2010).mp4''"
  by (simp add: new_path_def new_filename_def path_defs)



lemma movie_is_video:
  "str_lower (flat_ops replace) (snd (splitext (basename ''/lib/movie.mp4'')))
     \<in> video_extensions"
  by (simp add: path_defs ext_defs flat_ops_def ascii_lower_def ascii_lower_char_def)

lemma exists_pair:
  "exists (flat_ops replace) fs_pair ''/lib/movie.mp4''"
  "exists (flat_ops replace) fs_pair ''/lib/movie.srt''"
  "exists (flat_ops replace) fs_pair ''/lib/Movie (2010).srt''"
  "\<not> exists (flat_ops replace) fs_pair ''/lib/Movie (2010).mp4''"
  "\<not> exists (flat_ops replace) fs_pair ''/lib/other.mp4''"
  by (simp_all add: flat_defs fs_pair_def)

lemma main_destination_free:
  "\<not> (exists (flat_ops replace) fs_pair (new_path ''/lib/movie.mp4'' ''Movie (2010)'')
      \<and> new_path ''/lib/movie.mp4'' ''Movie (2010)'' \<noteq> ''/lib/movie.mp4'')"
  by (simp add: new_path_movie exists_pair)

lemma rename_pair_main:
  "os_rename (flat_ops replace) fs_pair ''/lib/movie.mp4''
     (new_path ''/lib/movie.mp4'' ''Movie (2010)'') = Inr fs_pair_main"
  by (simp add: new_path_movie flat_defs fs_pair_def fs_pair_main_def)

lemma subtitle_pair_main:
  "find_related_subtitle (flat_ops replace) fs_pair_main lib ''/lib/movie.mp4''
     = Some ''/lib/movie.srt''"
  by (simp add: find_related_subtitle_def flat_defs fs_pair_main_def path_defs)

lemma subtitle_dst:
  "join (dirname ''/lib/movie.mp4'')
     (fst (splitext ''Movie (2010)'') @ snd (splitext ''/lib/movie.srt''))
     = ''/lib/Movie (2010).srt''"
  by (simp add: path_defs)

lemma rename_pair_sub_refused:
  "os_rename (flat_ops False) fs_pair_main ''/lib/movie.srt'' ''/lib/Movie (2010).srt''
     = Inl (OSError ''File exists'')"
  by (simp add: flat_defs fs_pair_main_def)

lemma rename_pair_sub_replaced:
  "os_rename (flat_ops True) fs_pair_main ''/lib/movie.srt'' ''/lib/Movie (2010).srt''
     = Inr fs_pair_both"
  by (simp add: flat_defs fs_pair_main_def fs_pair_both_def)

lemma exists_pair_main:
  "exists (flat_ops replace) fs_pair_main ''/lib/Movie (2010).srt''"
  by (simp add: flat_defs fs_pair_main_def)

lemma message_one: "success_message [e] = ''Successfully renamed 1 file(s)''"
  by (simp add: success_message_def str_nat.simps digit_char_def)

lemma message_two: "success_message [e, e'] = ''Successfully renamed 2 file(s)''"
  by (simp add: success_message_def str_nat.simps digit_char_def)


lemma pages_movies_one: "ceil_truediv 4 1 = Inr 4"
  by (simp add: float_defs)


section \<open>The claims\<close>

text \<open>
  C1 (as amended). The rename returns a result for all arguments and every behaviour
  of the system calls. The file-info lookup returns \<^verbatim>\<open>None\<close> for a path that does not
  exist and a record for one that does, unless \<^verbatim>\<open>os.path.relpath\<close> raises: the lookup
  has no \<^verbatim>\<open>try\<close>, and that exception leaves it. The paginated query returns a result
  whenever \<open>per_page\<close> is not zero or the filtered set is empty; with \<open>per_page = 0\<close>
  and a non-empty filtered set the division raises \<^verbatim>\<open>ZeroDivisionError\<close>, which
  nothing catches.
\<close>

theorem operations_return_result:
  fixes pg pp :: int
  shows "(\<exists>r fs'. rename_file ops fs self old_path new_name rs = Inr (r, fs'))
     \<and> (\<not> exists ops fs p \<longrightarrow> get_file_info ops fs self p = Inr None)
     \<and> (exists ops fs p \<longrightarrow>
          (case os_relpath ops fs p (library_path self) of
             Inr rel \<Rightarrow> \<exists>i. get_file_info ops fs self p = Inr (Some i)
           | Inl e \<Rightarrow> get_file_info ops fs self p = Inl e))
     \<and> (pp \<noteq> 0 \<or> listing ops fs self search sort_by sort_order = [] \<longrightarrow>
          (\<exists>r. get_files_paginated ops fs self pg pp search sort_by sort_order = Inr r))
     \<and> (pp = 0 \<and> listing ops fs self search sort_by sort_order \<noteq> [] \<longrightarrow>
          get_files_paginated ops fs self pg pp search sort_by sort_order
            = Inl ZeroDivisionError)"
proof -
  have info: "exists ops fs p \<longrightarrow>
          (case os_relpath ops fs p (library_path self) of
             Inr rel \<Rightarrow> \<exists>i. get_file_info ops fs self p = Inr (Some i)
           | Inl e \<Rightarrow> get_file_info ops fs self p = Inl e)"
    by (auto split: sum.splits intro: get_file_info_raises get_file_info_returns)
  show ?thesis
    using rename_file_total [of ops fs self old_path new_name rs] info
      get_file_info_missing [of ops fs p self]
      paginate_nonzero [of pp "listing ops fs self search sort_by sort_order" pg]
      paginate_zero [of "listing ops fs self search sort_by sort_order" pg]
    by (auto simp: get_files_paginated_def paginate_Nil)
qed

theorem operations_return_result_witness:
  "(2::int) \<noteq> 0
   \<and> (\<exists>r. get_files_paginated (flat_ops True) fs_movies lib 1 2 None ''size'' ''asc'' = Inr r)
   \<and> (\<exists>r fs'. rename_file (flat_ops True) fs_movies lib ''/lib/c.mp4'' ''d'' True = Inr (r, fs'))
   \<and> exists (flat_ops True) fs_movies ''/lib/c.mp4''
   \<and> (\<exists>i. get_file_info (flat_ops True) fs_movies lib ''/lib/c.mp4'' = Inr (Some i))
   \<and> exists flat_ops_no_cwd fs_movies ''/lib/c.mp4''
   \<and> get_file_info flat_ops_no_cwd fs_movies (lib\<lparr>library_path := ''media''\<rparr>) ''/lib/c.mp4''
       = Inl (OSError ''No such file or directory'')"
proof -
  have here: "exists (flat_ops True) fs_movies ''/lib/c.mp4''"
    and gone: "exists flat_ops_no_cwd fs_movies ''/lib/c.mp4''"
    by (simp_all add: flat_ops_no_cwd_def flat_defs fs_movies_def)
  have rel: "os_relpath (flat_ops True) fs_movies ''/lib/c.mp4'' (library_path lib)
               = Inr ''c.mp4''"
    by (simp add: flat_defs)
  have raises: "os_relpath flat_ops_no_cwd fs_movies ''/lib/c.mp4''
                  (library_path (lib\<lparr>library_path := ''media''\<rparr>))
                  = Inl (OSError ''No such file or directory'')"
    by (simp add: flat_ops_no_cwd_def flat_defs)
  have fails: "get_file_info flat_ops_no_cwd fs_movies (lib\<lparr>library_path := ''media''\<rparr>)
                 ''/lib/c.mp4'' = Inl (OSError ''No such file or directory'')"
    by (rule get_file_info_raises [OF gone raises])
  show ?thesis
    using operations_return_result [where ops = "flat_ops True" and fs = fs_movies
            and self = lib and old_path = "''/lib/c.mp4''" and new_name = "''d''"
            and rs = True and p = "''/lib/c.mp4''" and pp = 2 and pg = 1 and search = None
            and sort_by = "''size''" and sort_order = "''asc''"]
    by (simp add: here gone rel fails)
qed

text \<open>
  C1 as stated fails: over the four files of \<open>fs_movies\<close>, the query with
  \<open>per_page = 0\<close> ends in \<^verbatim>\<open>ZeroDivisionError\<close>.
\<close>

theorem query_per_page_zero_raises:
  "get_files_paginated (flat_ops True) fs_movies lib 1 0 None ''size'' ''asc''
     = Inl ZeroDivisionError"
  by (simp add: get_files_paginated_def listing_movies_size paginate_zero)






text \<open>
  C4. Once the main rename of a video has gone through and the subtitle is to follow,
  the result is a success whatever the subtitle step does. When no subtitle is found, or
  the subtitle's \<^verbatim>\<open>os.rename\<close> raises, the list holds the main entry alone and the
  filesystem is the one the main rename left (nothing is undone); when the subtitle's
  rename returns, its entry follows the main entry.
\<close>

theorem subtitle_failure_tolerated:
  assumes "exists ops fs old_path"
    and "\<not> (exists ops fs (new_path old_path new_name) \<and> new_path old_path new_name \<noteq> old_path)"
    and "os_rename ops fs old_path (new_path old_path new_name) = Inr fs1"
    and "str_lower ops (snd (splitext (basename old_path))) \<in> video_extensions"
  shows "\<exists>r fs'. rename_file ops fs self old_path new_name True = Inr (r, fs')
     \<and> success r
     \<and> message r = success_message (renamed_files r)
     \<and> (let main = \<lparr>old = old_path, new = new_path old_path new_name, kind = ''main''\<rparr>
        in case find_related_subtitle ops fs1 self old_path of
             None \<Rightarrow> renamed_files r = [main] \<and> fs' = fs1
           | Some subtitle \<Rightarrow>
               (let dst = join (dirname old_path)
                            (fst (splitext new_name) @ snd (splitext subtitle))
                in case os_rename ops fs1 subtitle dst of
                     Inl e \<Rightarrow> renamed_files r = [main] \<and> fs' = fs1
                   | Inr fs2 \<Rightarrow>
                       renamed_files r =
                         [main, \<lparr>old = subtitle, new = dst, kind = ''subtitle''\<rparr>]
                       \<and> fs' = fs2))"
  unfolding rename_file_main_ok [OF assms(1,2,3)]
  using assms(4)
  by (auto simp: rename_subtitle_step_def Let_def find_related_subtitle_nonempty
           split: option.splits sum.splits)

theorem subtitle_failure_tolerated_witness:
  "os_rename (flat_ops False) fs_pair_main ''/lib/movie.srt'' ''/lib/Movie (2010).srt''
       = Inl (OSError ''File exists'')
   \<and> rename_file (flat_ops False) fs_pair lib ''/lib/movie.mp4'' ''Movie (2010)'' True =
       Inr (\<lparr>success = True, message = ''Successfully renamed 1 file(s)'',
             renamed_files = [\<lparr>old = ''/lib/movie.mp4'', new = ''/lib/Movie (2010).mp4'',
                                kind = ''main''\<rparr>]\<rparr>, fs_pair_main)"
  using subtitle_failure_tolerated [OF exists_pair(1) [of False] main_destination_free
          rename_pair_main movie_is_video, where self = lib]
  by (auto simp: subtitle_pair_main subtitle_dst rename_pair_sub_refused new_path_movie
        message_one)

text \<open>
  C5. The code sets the new file name to the stem of \<open>new_name\<close> followed by the old
  extension, under the comment that the new name keeps the same extension. It does not
  always: \<^verbatim>\<open>README\<close>, which has no extension, renamed with \<^verbatim>\<open>notes.v2.txt\<close>
  becomes \<^verbatim>\<open>notes.v2\<close> with the extension \<^verbatim>\<open>.v2\<close>; and \<^verbatim>\<open>movie.mp4\<close> renamed
  with the empty name becomes \<^verbatim>\<open>.mp4\<close>, which \<^verbatim>\<open>os.path.splitext\<close> reads as a name
  without extension. (Lemma \<open>new_filename_keeps_extension\<close> gives the requests on which
  the extension is kept: the old name has one, and the last component of the new stem
  has a character other than a dot.)
\<close>

theorem rename_changes_extension:
  "rename_file (flat_ops True) fs_plain lib ''/lib/README'' ''notes.v2.txt'' True =
     Inr (\<lparr>success = True, message = ''Successfully renamed 1 file(s)'',
           renamed_files = [\<lparr>old = ''/lib/README'', new = ''/lib/notes.v2'',
                              kind = ''main''\<rparr>]\<rparr>,
          [(''/lib/notes.v2'', file_of 12 1), (''/lib'', file_of 4096 0)])
   \<and> snd (splitext (basename ''/lib/README'')) = []
   \<and> snd (splitext (basename ''/lib/notes.v2'')) = ''.v2''
   \<and> new_path ''/lib/movie.mp4'' [] = ''/lib/.mp4''
   \<and> snd (splitext (basename ''/lib/movie.mp4'')) = ''.mp4''
   \<and> snd (splitext (basename ''/lib/.mp4'')) = []"
  by (simp add: rename_file_def new_path_def new_filename_def fs_plain_def flat_defs path_defs
        ext_defs message_one)

text \<open>
  C6. With a positive \<open>per_page\<close> the query returns, for every page, the statistics
  of the whole filtered set: its length, its numbers of videos and of subtitles, and
  the sum of its sizes.
\<close>

theorem stats_over_filtered_set:
  fixes pg pp :: int
  assumes "0 < pp"
  shows "\<exists>r. get_files_paginated ops fs self pg pp search sort_by sort_order = Inr r
     \<and> stats r =
         (let filtered = filter_search ops search (get_all_files ops fs self)
          in \<lparr>stats_total_files = int (length filtered),
              video_files = int (length (filter is_video filtered)),
              subtitle_files = int (length (filter is_subtitle filtered)),
              total_size = sum_list (map fsize filtered)\<rparr>)"
proof -
  have nz: "pp \<noteq> 0" using assms by simp
  from paginate_stats [OF nz, of "listing ops fs self search sort_by sort_order" pg]
  show ?thesis
    unfolding get_files_paginated_def by (simp add: Let_def listing_def)
qed

theorem stats_over_filtered_set_witness:
  "(0::int) < 1
   \<and> (\<exists>r. get_files_paginated (flat_ops True) fs_movies lib 2 1 None ''size'' ''asc'' = Inr r
        \<and> files r = [rec_a]
        \<and> stats r = \<lparr>stats_total_files = 4, video_files = 3, subtitle_files = 1,
                      total_size = 61\<rparr>)"
proof -
  have "get_files_paginated (flat_ops True) fs_movies lib 2 1 None ''size'' ''asc''
      = paginate [rec_s, rec_a, rec_b, rec_c] 2 1"
    by (simp add: get_files_paginated_def listing_movies_size)
  moreover have "ceil_truediv (int (length [rec_s, rec_a, rec_b, rec_c])) 1 = Inr 4"
    using pages_movies_one by simp
  then have "files (projr (paginate [rec_s, rec_a, rec_b, rec_c] 2 1)) = [rec_a]"
    by (simp add: paginate_pages Let_def)
  ultimately show ?thesis
    using stats_over_filtered_set [where pp = 1 and pg = 2 and ops = "flat_ops True"
            and fs = fs_movies and self = lib and search = None and sort_by = "''size''"
            and sort_order = "''asc''"]
    by (auto simp: scan_movies filter_search_def rec_defs)
qed

text \<open>
  C7. When the filtered set is empty and \<open>per_page\<close> is positive, the query returns
  one page, no files, and neither a previous nor a next page.
\<close>

theorem empty_filtered_set_one_page:
  fixes pg pp :: int
  assumes "filter_search ops search (get_all_files ops fs self) = []" and "0 < pp"
  shows "get_files_paginated ops fs self pg pp search sort_by sort_order =
     Inr \<lparr>files = [],
          pagination = \<lparr>current_page = 1, per_page = pp, total_files = 0, total_pages = 1,
                        has_previous = False, has_next = False\<rparr>,
          stats = \<lparr>stats_total_files = 0, video_files = 0, subtitle_files = 0,
                   total_size = 0\<rparr>\<rparr>"
  using assms(1) by (simp add: get_files_paginated_def listing_def paginate_Nil)

theorem empty_filtered_set_one_page_witness:
  "filter_search (flat_ops True) (Some ''xyz'') (get_all_files (flat_ops True) fs_movies lib) = []
   \<and> (0::int) < 2
   \<and> get_files_paginated (flat_ops True) fs_movies lib 3 2 (Some ''xyz'') ''size'' ''asc'' =
       Inr \<lparr>files = [],
          pagination = \<lparr>current_page = 1, per_page = 2, total_files = 0, total_pages = 1,
                        has_previous = False, has_next = False\<rparr>,
          stats = \<lparr>stats_total_files = 0, video_files = 0, subtitle_files = 0,
                   total_size = 0\<rparr>\<rparr>"
  using empty_filtered_set_one_page [where pp = 2 and pg = 3 and sort_by = "''size''"
          and sort_order = "''asc''", OF filter_movies_none [of True]]
  by (simp add: filter_movies_none)

text \<open>
  C8. On a list of records with pairwise distinct sizes, the sort by size in
  descending order is the reverse of the sort by size in ascending order.
\<close>

theorem size_sort_reversed:
  assumes "distinct (map fsize filtered)"
  shows "sort_files ops ''size'' ''desc'' filtered
           = rev (sort_files ops ''size'' ''asc'' filtered)"
  using assms by (simp add: sort_files_def py_sort_reverse_distinct)

theorem size_sort_reversed_witness:
  "distinct (map fsize [rec_c, rec_a, rec_b, rec_s])
   \<and> sort_files (flat_ops True) ''size'' ''asc'' [rec_c, rec_a, rec_b, rec_s]
       = [rec_s, rec_a, rec_b, rec_c]
   \<and> sort_files (flat_ops True) ''size'' ''desc'' [rec_c, rec_a, rec_b, rec_s]
       = [rec_c, rec_b, rec_a, rec_s]"
proof -
  have d: "distinct (map fsize [rec_c, rec_a, rec_b, rec_s])"
    by (simp add: rec_defs)
  have a: "sort_files (flat_ops True) ''size'' ''asc'' [rec_c, rec_a, rec_b, rec_s]
             = [rec_s, rec_a, rec_b, rec_c]"
    by (simp add: sort_files_def py_sort_def rec_defs)
  show ?thesis using size_sort_reversed [OF d, of "flat_ops True"] d a by simp
qed

text \<open>
  C9. When the library path does not exist, the scan returns the empty list; the
  function has no other exit than its two returns.
\<close>

theorem missing_root_empty_scan:
  assumes "\<not> exists ops fs (library_path self)"
  shows "get_all_files ops fs self = []"
  using assms by (simp add: get_all_files_def)

theorem missing_root_empty_scan_witness:
  "\<not> exists (flat_ops True) fs_movies (library_path (lib\<lparr>library_path := ''/media''\<rparr>))
   \<and> get_all_files (flat_ops True) fs_movies (lib\<lparr>library_path := ''/media''\<rparr>) = []"
proof -
  have h: "\<not> exists (flat_ops True) fs_movies (library_path (lib\<lparr>library_path := ''/media''\<rparr>))"
    by (simp add: flat_defs fs_movies_def)
  show ?thesis using missing_root_empty_scan [OF h] h by simp
qed

text \<open>
  C10 (as amended). The subtitle step does not look at its destination. When the
  subtitle is found and another file already is at the path the subtitle moves to,
  \<^verbatim>\<open>os.rename\<close> is called all the same and alone decides: where it replaces the
  destination, the result is a success with the main and the subtitle entry and the
  filesystem is the one that call left; where it raises, the result is a success with
  the main entry alone and the filesystem the main rename left.
\<close>

theorem subtitle_rename_unchecked:
  assumes "exists ops fs old_path"
    and "\<not> (exists ops fs (new_path old_path new_name) \<and> new_path old_path new_name \<noteq> old_path)"
    and "os_rename ops fs old_path (new_path old_path new_name) = Inr fs1"
    and "str_lower ops (snd (splitext (basename old_path))) \<in> video_extensions"
    and "find_related_subtitle ops fs1 self old_path = Some subtitle"
    and "dst = join (dirname old_path) (fst (splitext new_name) @ snd (splitext subtitle))"
    and "exists ops fs1 dst" and "dst \<noteq> subtitle"
  shows "rename_file ops fs self old_path new_name True =
     (case os_rename ops fs1 subtitle dst of
        Inr fs2 \<Rightarrow>
          Inr (\<lparr>success = True, message = ''Successfully renamed 2 file(s)'',
                renamed_files =
                  [\<lparr>old = old_path, new = new_path old_path new_name, kind = ''main''\<rparr>,
                   \<lparr>old = subtitle, new = dst, kind = ''subtitle''\<rparr>]\<rparr>, fs2)
      | Inl e \<Rightarrow>
          Inr (\<lparr>success = True, message = ''Successfully renamed 1 file(s)'',
                renamed_files =
                  [\<lparr>old = old_path, new = new_path old_path new_name, kind = ''main''\<rparr>]\<rparr>,
               fs1))"
  unfolding rename_file_main_ok [OF assms(1,2,3)]
  using assms(4,5) find_related_subtitle_nonempty [OF assms(5)]
  by (simp add: rename_subtitle_step_def Let_def assms(6) [symmetric] message_one message_two
        split: sum.splits)

theorem subtitle_rename_unchecked_witness:
  "exists (flat_ops True) fs_pair_main ''/lib/Movie (2010).srt''
   \<and> map_of fs_pair_main ''/lib/Movie (2010).srt'' = Some (file_of 9 3)
   \<and> rename_file (flat_ops True) fs_pair lib ''/lib/movie.mp4'' ''Movie (2010)'' True =
     Inr (\<lparr>success = True, message = ''Successfully renamed 2 file(s)'',
           renamed_files = [\<lparr>old = ''/lib/movie.mp4'', new = ''/lib/Movie (2010).mp4'',
                              kind = ''main''\<rparr>,
                            \<lparr>old = ''/lib/movie.srt'', new = ''/lib/Movie (2010).srt'',
                              kind = ''subtitle''\<rparr>]\<rparr>, fs_pair_both)
   \<and> map_of fs_pair_both ''/lib/Movie (2010).srt'' = Some (file_of 5 2)"
proof -
  have h6: "''/lib/Movie (2010).srt'' =
      join (dirname ''/lib/movie.mp4'')
        (fst (splitext ''Movie (2010)'') @ snd (splitext ''/lib/movie.srt''))"
    by (simp only: subtitle_dst)
  have h8: "''/lib/Movie (2010).srt'' \<noteq> ''/lib/movie.srt''" by simp
  have before: "map_of fs_pair_main ''/lib/Movie (2010).srt'' = Some (file_of 9 3)"
    by (simp add: fs_pair_main_def)
  have after: "map_of fs_pair_both ''/lib/Movie (2010).srt'' = Some (file_of 5 2)"
    by (simp add: fs_pair_both_def)
  show ?thesis
    using subtitle_rename_unchecked [OF exists_pair(1) [of True] main_destination_free
            rename_pair_main movie_is_video subtitle_pair_main h6 exists_pair_main h8]
    by (simp add: exists_pair_main new_path_movie rename_pair_sub_replaced before after)
qed

text \<open>
  C10 as stated fails where \<^verbatim>\<open>os.rename\<close> refuses an existing destination: the video
  \<^verbatim>\<open>movie.mp4\<close> has its subtitle \<^verbatim>\<open>movie.srt\<close>, another file is at
  \<^verbatim>\<open>Movie (2010).srt\<close>, and the result is a success with the main entry alone.
\<close>

theorem refused_subtitle_one_entry:
  "find_related_subtitle (flat_ops False) fs_pair_main lib ''/lib/movie.mp4''
     = Some ''/lib/movie.srt''
   \<and> exists (flat_ops False) fs_pair_main ''/lib/Movie (2010).srt''
   \<and> rename_file (flat_ops False) fs_pair lib ''/lib/movie.mp4'' ''Movie (2010)'' True =
       Inr (\<lparr>success = True, message = ''Successfully renamed 1 file(s)'',
             renamed_files = [\<lparr>old = ''/lib/movie.mp4'', new = ''/lib/Movie (2010).mp4'',
                                kind = ''main''\<rparr>]\<rparr>, fs_pair_main)"
proof -
  have "rename_subtitle_step (flat_ops False) fs_pair_main lib ''/lib/movie.mp4''
          ''Movie (2010)'' [\<lparr>old = ''/lib/movie.mp4'', new = ''/lib/Movie (2010).mp4'',
                              kind = ''main''\<rparr>]
      = ([\<lparr>old = ''/lib/movie.mp4'', new = ''/lib/Movie (2010).mp4'', kind = ''main''\<rparr>],
         fs_pair_main)"
    by (simp add: rename_subtitle_step_def subtitle_pair_main subtitle_dst
          rename_pair_sub_refused)
  then show ?thesis
    unfolding rename_file_main_ok [OF exists_pair(1) [of False] main_destination_free
        rename_pair_main]
    by (simp add: subtitle_pair_main exists_pair_main movie_is_video new_path_movie message_one)
qed

end
